theory Spec2Isabelle
  imports Main "HOL-Library.Log_Nat"
begin

section \<open>Texts and character classes\<close>

text \<open>
  The parser of \<^verbatim>\<open>src/ai_agent.py\<close> works on a Python \<^verbatim>\<open>str\<close>, a sequence of Unicode code
  points. A code point is modelled as an integer (those of Python are 0 to 0x10FFFF) and a
  text as a list of code points; \<open>str\<close> turns a literal of ASCII characters into a text.
  The character classes are those of \<^verbatim>\<open>re\<close> for \<^verbatim>\<open>str\<close> patterns in Python 3.11, whose
  character database is Unicode 14.0.
\<close>

type_synonym codepoint = int

type_synonym pystr = "codepoint list"

definition str :: "string \<Rightarrow> pystr" where
  "str s = map of_char s"

text \<open>
  \<^verbatim>\<open>\d\<close> matches the decimal digits of every script. They come in 66 runs of ten
  consecutive code points, from the digit zero to the digit nine; \<open>digit_zeros\<close> lists the
  zero of each run, the ASCII digits first.
\<close>

definition digit_zeros :: "codepoint list" where
  "digit_zeros =
     [48, 1632, 1776, 1984, 2406, 2534, 2662, 2790, 2918, 3046, 3174, 3302, 3430, 3558,
      3664, 3792, 3872, 4160, 4240, 6112, 6160, 6470, 6608, 6784, 6800, 6992, 7088, 7232,
      7248, 42528, 43216, 43264, 43472, 43504, 43600, 44016, 65296, 66720, 68912, 69734,
      69872, 69942, 70096, 70384, 70736, 70864, 71248, 71360, 71472, 71904, 72016, 72784,
      73040, 73120, 92768, 92864, 93008, 120782, 120792, 120802, 120812, 120822, 123200,
      123632, 125264, 130032]"

definition digit_zero :: "codepoint \<Rightarrow> codepoint option" where
  "digit_zero c = find (\<lambda>z. z \<le> c \<and> c < z + 10) digit_zeros"

definition is_digit :: "codepoint \<Rightarrow> bool" where
  "is_digit c = (digit_zero c \<noteq> None)"

text \<open>\<^verbatim>\<open>\s\<close>, which is also the set of characters that \<^verbatim>\<open>str.strip()\<close> removes.\<close>

definition is_space :: "codepoint \<Rightarrow> bool" where
  "is_space c = (c \<in> set [0x09, 0x0A, 0x0B, 0x0C, 0x0D, 0x1C, 0x1D, 0x1E, 0x1F, 0x20,
                            0x85, 0xA0, 0x1680, 0x2000, 0x2001, 0x2002, 0x2003, 0x2004,
                            0x2005, 0x2006, 0x2007, 0x2008, 0x2009, 0x200A, 0x2028, 0x2029,
                            0x202F, 0x205F, 0x3000])"

text \<open>
  A literal character \<open>p\<close> of a pattern under \<^verbatim>\<open>re.IGNORECASE\<close>, for the ASCII characters
  that the patterns of the source are written in: a letter matches its two ASCII cases,
  and besides them \<^verbatim>\<open>i\<close> matches U+0130 and U+0131, \<^verbatim>\<open>k\<close> matches U+212A and \<^verbatim>\<open>s\<close> matches
  U+017F; any other character matches itself only.
\<close>

definition ascii_lower :: "codepoint \<Rightarrow> codepoint" where
  "ascii_lower c = (if 65 \<le> c \<and> c \<le> 90 then c + 32 else c)"

definition ci_eq :: "codepoint \<Rightarrow> codepoint \<Rightarrow> bool" where
  "ci_eq p x =
     (let l = ascii_lower p
      in if 97 \<le> l \<and> l \<le> 122
         then x = l \<or> x = l - 32
              \<or> (l = 105 \<and> (x = 0x130 \<or> x = 0x131))
              \<or> (l = 107 \<and> x = 0x212A)
              \<or> (l = 115 \<and> x = 0x17F)
         else x = p)"

text \<open>\<^verbatim>\<open>.\<close> under \<^verbatim>\<open>re.DOTALL\<close>.\<close>

definition any_char :: "codepoint \<Rightarrow> bool" where
  "any_char c = True"

text \<open>\<^verbatim>\<open>[.!?]\<close> and \<^verbatim>\<open>[^.!?]\<close> of the section pattern.\<close>

definition is_term :: "codepoint \<Rightarrow> bool" where
  "is_term c = (c \<in> set (str ''.!?''))"

definition not_term :: "codepoint \<Rightarrow> bool" where
  "not_term c = (\<not> is_term c)"

text \<open>
  The class of the bullet pattern: the bullet glyph U+2022, the hyphen and the asterisk.
\<close>

definition is_bullet :: "codepoint \<Rightarrow> bool" where
  "is_bullet c = (c = 0x2022 \<or> c \<in> set (str ''-*''))"

section \<open>The fragment of Python's \<^verbatim>\<open>re\<close> that the parser uses\<close>

text \<open>
  The patterns of the source are built from single characters and classes, concatenation,
  alternation, greedy and lazy repetition of a class (\<^verbatim>\<open>\d{1,3}\<close>, \<^verbatim>\<open>\s*\<close>, \<^verbatim>\<open>\d+\<close>,
  \<^verbatim>\<open>[^.!?]*\<close>, \<^verbatim>\<open>.*?\<close>), a greedy bounded repetition of a group (\<^verbatim>\<open>(?:...){0,3}\<close>), one
  capturing group, a lookahead and \<^verbatim>\<open>\Z\<close>.
\<close>

datatype rx =
    Eps
  | Cls "codepoint \<Rightarrow> bool"
  | Cat rx rx
  | Alt rx rx
  | CRep "codepoint \<Rightarrow> bool" nat "nat option" bool
  | Upto nat rx
  | Grp rx
  | Ahead rx
  | Eos

text \<open>
  A matcher state is the text still to be read and the content of group 1, if set.
  \<open>ms r st\<close> lists the states in which \<open>r\<close> can finish from \<open>st\<close>, in the order in which a
  backtracking matcher tries them; the head of the list is the match that \<^verbatim>\<open>re\<close> reports.
\<close>

type_synonym st = "pystr \<times> pystr option"

text \<open>
  \<open>crep p lo hi greedy s\<close>: between \<open>lo\<close> and \<open>hi\<close> characters of class \<open>p\<close> (no upper bound
  when \<open>hi = None\<close>); a greedy repetition tries the longer runs first, a lazy one the shorter.
\<close>

fun crep :: "(codepoint \<Rightarrow> bool) \<Rightarrow> nat \<Rightarrow> nat option \<Rightarrow> bool \<Rightarrow> pystr \<Rightarrow> pystr list" where
  "crep p lo hi greedy [] = (if lo = 0 then [[]] else [])"
| "crep p lo hi greedy (c # cs) =
     (let more = (if p c \<and> hi \<noteq> Some 0
                  then crep p (lo - 1) (map_option (\<lambda>h. h - 1) hi) greedy cs else []);
          stop = (if lo = 0 then [c # cs] else [])
      in if greedy then more @ stop else stop @ more)"

text \<open>\<open>upto_iter f n st\<close>: at most \<open>n\<close> rounds of the matcher \<open>f\<close>, more rounds first.\<close>

fun upto_iter :: "(st \<Rightarrow> st list) \<Rightarrow> nat \<Rightarrow> st \<Rightarrow> st list" where
  "upto_iter f 0 st = [st]"
| "upto_iter f (Suc n) st = concat (map (upto_iter f n) (f st)) @ [st]"

fun ms :: "rx \<Rightarrow> st \<Rightarrow> st list" where
  "ms Eps st = [st]"
| "ms (Cls p) (s, g) = (case s of [] \<Rightarrow> [] | c # cs \<Rightarrow> if p c then [(cs, g)] else [])"
| "ms (Cat a b) st = concat (map (ms b) (ms a st))"
| "ms (Alt a b) st = ms a st @ ms b st"
| "ms (CRep p lo hi greedy) (s, g) = map (\<lambda>r. (r, g)) (crep p lo hi greedy s)"
| "ms (Upto n r) st = upto_iter (\<lambda>x. ms r x) n st"
| "ms (Grp r) (s, g) =
     map (\<lambda>(s', _). (s', Some (take (length s - length s') s))) (ms r (s, g))"
| "ms (Ahead r) st = (if ms r st = [] then [] else [st])"
| "ms Eos (s, g) = (if s = [] then [(s, g)] else [])"

text \<open>A literal string, and a literal string under \<^verbatim>\<open>re.IGNORECASE\<close>.\<close>

fun lit :: "pystr \<Rightarrow> rx" where
  "lit [] = Eps"
| "lit (c # cs) = Cat (Cls (\<lambda>x. x = c)) (lit cs)"

fun ilit :: "pystr \<Rightarrow> rx" where
  "ilit [] = Eps"
| "ilit (c # cs) = Cat (Cls (ci_eq c)) (ilit cs)"

text \<open>
  \<^verbatim>\<open>re.search\<close>: the match at the leftmost position that has one, as the pair of the
  matched text and group 1; \<open>None\<close> when no position has a match.
\<close>

type_synonym re_match = "pystr \<times> pystr option"

fun re_search :: "rx \<Rightarrow> pystr \<Rightarrow> re_match option" where
  "re_search r [] = (case ms r ([], None) of [] \<Rightarrow> None | (rest, g) # _ \<Rightarrow> Some ([], g))"
| "re_search r (c # cs) =
     (case ms r (c # cs, None) of
        [] \<Rightarrow> re_search r cs
      | (rest, g) # _ \<Rightarrow> Some (take (length (c # cs) - length rest) (c # cs), g))"

text \<open>
  \<^verbatim>\<open>re.findall\<close> scans from left to right for non-overlapping matches. \<open>re_scan r k s\<close>
  skips \<open>k\<close> characters (the rest of the previous match), then looks for a match at each
  position in turn; after a match that read \<open>n\<close> characters the scan resumes \<open>n\<close> characters
  further (one character further after an empty match).
\<close>

fun re_scan :: "rx \<Rightarrow> nat \<Rightarrow> pystr \<Rightarrow> re_match list" where
  "re_scan r k [] =
     (if k = 0 then (case ms r ([], None) of [] \<Rightarrow> [] | (rest, g) # _ \<Rightarrow> [([], g)]) else [])"
| "re_scan r k (c # cs) =
     (if 0 < k then re_scan r (k - 1) cs
      else (case ms r (c # cs, None) of
              [] \<Rightarrow> re_scan r 0 cs
            | (rest, g) # _ \<Rightarrow>
                (take (length (c # cs) - length rest) (c # cs), g)
                  # re_scan r (length (c # cs) - length rest - 1) cs))"

text \<open>
  \<^verbatim>\<open>re.findall\<close> returns the whole matches for a pattern without a group and the contents
  of the group for a pattern with one group (the empty string for a group that is unset).
\<close>

definition findall_whole :: "rx \<Rightarrow> pystr \<Rightarrow> pystr list" where
  "findall_whole r s = map fst (re_scan r 0 s)"

definition findall_group :: "rx \<Rightarrow> pystr \<Rightarrow> pystr list" where
  "findall_group r s = map (\<lambda>m. case snd m of None \<Rightarrow> [] | Some t \<Rightarrow> t) (re_scan r 0 s)"

section \<open>The response parser of \<^verbatim>\<open>src/ai_agent.py\<close>\<close>

subsection \<open>Values and the result dictionary\<close>

text \<open>
  \<^verbatim>\<open>ai_content\<close> is annotated \<^verbatim>\<open>str\<close>, and the caller passes
  \<^verbatim>\<open>result...get("content", "")\<close>, which is \<^verbatim>\<open>None\<close> when the reply carries a JSON null.
  The first use of \<^verbatim>\<open>ai_content\<close> is \<^verbatim>\<open>re.search\<close>, which raises \<^verbatim>\<open>TypeError\<close> on a value
  that is not a string.
\<close>

datatype pyval = PyNone | PyStr pystr

datatype py_error = TypeError

text \<open>
  The dictionary that \<^verbatim>\<open>parse_ai_response\<close> returns. A key that the dictionary may lack
  is an option: \<open>None\<close> is an absent key.
\<close>

record analysis =
  overall_score :: int
  recommendations :: "pystr list"
  architecture_analysis :: "pystr option"
  performance_analysis :: "pystr option"
  security_analysis :: "pystr option"
  best_practices_analysis :: "pystr option"
  error :: "pystr option"
  raw_response :: pyval

subsection \<open>Score\<close>

definition digits :: rx where
  "digits = CRep is_digit 1 (Some 3) True"

definition spaces :: rx where
  "spaces = CRep is_space 0 None True"

definition opt_colon :: rx where
  "opt_colon = CRep (\<lambda>c. c = 58) 0 (Some 1) True"

text \<open>The five patterns of \<^verbatim>\<open>score_patterns\<close>, in the order of the list, under \<^verbatim>\<open>re.IGNORECASE\<close>.\<close>

definition pat_slash :: rx where
  "pat_slash =
     Cat (Grp digits) (Cat spaces (Cat (ilit (str ''/'')) (Cat spaces (ilit (str ''100'')))))"

definition pat_out_of :: rx where
  "pat_out_of =
     Cat (Grp digits)
       (Cat spaces (Cat (ilit (str ''out of'')) (Cat spaces (ilit (str ''100'')))))"

definition pat_label :: "pystr \<Rightarrow> rx" where
  "pat_label w = Cat (ilit w) (Cat opt_colon (Cat spaces (Grp digits)))"

definition score_patterns :: "rx list" where
  "score_patterns =
     [pat_slash, pat_out_of, pat_label (str ''score''), pat_label (str ''rating''),
      pat_label (str ''quality'')]"

text \<open>
  \<^verbatim>\<open>int(match.group(1))\<close>. \<open>py_int\<close> is \<^verbatim>\<open>int\<close> on the strings that \<^verbatim>\<open>\d{1,3}\<close> can capture:
  decimal digits of any script, each read by its digit value. On any other string it is
  \<open>None\<close>, the \<^verbatim>\<open>ValueError\<close> of the source.
\<close>

definition digit_val :: "codepoint \<Rightarrow> int" where
  "digit_val c = (case digit_zero c of Some z \<Rightarrow> c - z | None \<Rightarrow> 0)"

definition py_int :: "pystr \<Rightarrow> int option" where
  "py_int s = (if s \<noteq> [] \<and> list_all is_digit s
               then Some (foldl (\<lambda>acc c. 10 * acc + digit_val c) 0 s) else None)"

text \<open>
  The loop over \<^verbatim>\<open>score_patterns\<close>; \<open>cur\<close> is \<^verbatim>\<open>result["overall_score"]\<close>. A group that did
  not take part in the match makes \<^verbatim>\<open>match.group(1)\<close> \<^verbatim>\<open>None\<close> and \<^verbatim>\<open>int(None)\<close> raise
  \<^verbatim>\<open>TypeError\<close>, which the inner \<^verbatim>\<open>except ValueError\<close> does not catch.
\<close>

fun score_loop :: "rx list \<Rightarrow> pystr \<Rightarrow> int \<Rightarrow> py_error + int" where
  "score_loop [] text cur = Inr cur"
| "score_loop (p # ps) text cur =
     (case re_search p text of
        None \<Rightarrow> score_loop ps text cur
      | Some (whole, None) \<Rightarrow> Inl TypeError
      | Some (whole, Some g) \<Rightarrow>
          (case py_int g of
             None \<Rightarrow> score_loop ps text cur
           | Some score \<Rightarrow>
               if 0 \<le> score \<and> score \<le> 100 then Inr score else score_loop ps text cur))"

definition extract_score :: "pystr \<Rightarrow> py_error + int" where
  "extract_score text = score_loop score_patterns text 0"

subsection \<open>Recommendations\<close>

text \<open>\<^verbatim>\<open>\d+\.\s*(.*?)(?=\d+\.\s*|\Z|\n\n)\<close> and \<^verbatim>\<open>[\<bullet>\-\*]\s*(.*?)(?=[\<bullet>\-\*]\s*|\Z|\n\n)\<close>, with \<^verbatim>\<open>re.DOTALL\<close>.\<close>

definition lazy_any :: rx where
  "lazy_any = CRep any_char 0 None False"

definition numbered_marker :: rx where
  "numbered_marker = Cat (CRep is_digit 1 None True) (Cat (lit (str ''.'')) spaces)"

definition bullet_marker :: rx where
  "bullet_marker = Cat (Cls is_bullet) spaces"

definition blank_line :: rx where
  "blank_line = lit [10, 10]"

definition numbered_pattern :: rx where
  "numbered_pattern =
     Cat numbered_marker (Cat (Grp lazy_any) (Ahead (Alt numbered_marker (Alt Eos blank_line))))"

definition bullet_pattern :: rx where
  "bullet_pattern =
     Cat bullet_marker (Cat (Grp lazy_any) (Ahead (Alt bullet_marker (Alt Eos blank_line))))"

text \<open>\<^verbatim>\<open>str.strip()\<close>.\<close>

definition strip :: "pystr \<Rightarrow> pystr" where
  "strip s = rev (dropWhile is_space (rev (dropWhile is_space s)))"

text \<open>\<^verbatim>\<open>[rec.strip() for rec in matches if rec.strip()]\<close>.\<close>

definition stripped_nonempty :: "pystr list \<Rightarrow> pystr list" where
  "stripped_nonempty matches = map strip (filter (\<lambda>rec. strip rec \<noteq> []) matches)"

text \<open>The list \<^verbatim>\<open>recommendations\<close> as it stands before the final \<^verbatim>\<open>if recommendations:\<close>.\<close>

definition collect_recommendations :: "pystr \<Rightarrow> pystr list" where
  "collect_recommendations text =
     (let recommendations = [];
          numbered_matches = findall_group numbered_pattern text;
          recommendations = (if numbered_matches \<noteq> []
                             then recommendations @ stripped_nonempty numbered_matches
                             else recommendations);
          bullet_matches = findall_group bullet_pattern text;
          recommendations = (if bullet_matches \<noteq> []
                             then recommendations @ stripped_nonempty bullet_matches
                             else recommendations)
      in recommendations)"

subsection \<open>Sections\<close>

text \<open>
  \<^verbatim>\<open>rf"(?i)(?:{keyword}[^.!?]*[.!?](?:[^.!?]*[.!?]){{0,3}})"\<close>. The keyword is spliced into
  the pattern as it is; the keywords of the source are letters and a space, which stand for
  themselves.
\<close>

definition sentence_end :: rx where
  "sentence_end = Cat (CRep not_term 0 None True) (Cls is_term)"

definition section_pattern :: "pystr \<Rightarrow> rx" where
  "section_pattern keyword = Cat (ilit keyword) (Cat sentence_end (Upto 3 sentence_end))"

text \<open>\<^verbatim>\<open>" ".join(matches)\<close>.\<close>

fun join_space :: "pystr list \<Rightarrow> pystr" where
  "join_space [] = []"
| "join_space [x] = x"
| "join_space (x # y # ys) = x @ 32 # join_space (y # ys)"

text \<open>The loop over the keywords of one section; \<open>cur\<close> is \<^verbatim>\<open>result[section_key]\<close>.\<close>

fun section_loop :: "pystr list \<Rightarrow> pystr \<Rightarrow> pystr \<Rightarrow> pystr" where
  "section_loop [] text cur = cur"
| "section_loop (keyword # keywords) text cur =
     (let matches = findall_whole (section_pattern keyword) text
      in if matches \<noteq> [] then join_space matches else section_loop keywords text cur)"

definition architecture_keywords :: "pystr list" where
  "architecture_keywords =
     [str ''architecture'', str ''structure'', str ''organization'', str ''design'']"

definition performance_keywords :: "pystr list" where
  "performance_keywords =
     [str ''performance'', str ''optimization'', str ''speed'', str ''efficiency'']"

definition security_keywords :: "pystr list" where
  "security_keywords =
     [str ''security'', str ''vulnerability'', str ''risk'', str ''protection'']"

definition best_practices_keywords :: "pystr list" where
  "best_practices_keywords =
     [str ''best practice'', str ''convention'', str ''standard'', str ''pattern'']"

subsection \<open>\<^verbatim>\<open>parse_ai_response\<close>\<close>

text \<open>The body of the \<^verbatim>\<open>try\<close> block on a string.\<close>

definition parse_text :: "pystr \<Rightarrow> py_error + analysis" where
  "parse_text text =
     (let result = \<lparr> overall_score = 0, recommendations = [],
                     architecture_analysis = Some [], performance_analysis = Some [],
                     security_analysis = Some [], best_practices_analysis = Some [],
                     error = None, raw_response = PyStr text \<rparr>
      in case extract_score text of
           Inl e \<Rightarrow> Inl e
         | Inr score \<Rightarrow>
            (let result = result\<lparr> overall_score := score \<rparr>;
                 recs = collect_recommendations text;
                 result = (if recs \<noteq> [] then result\<lparr> recommendations := take 10 recs \<rparr>
                           else result);
                 result = result\<lparr> architecture_analysis :=
                            Some (section_loop architecture_keywords text []) \<rparr>;
                 result = result\<lparr> performance_analysis :=
                            Some (section_loop performance_keywords text []) \<rparr>;
                 result = result\<lparr> security_analysis :=
                            Some (section_loop security_keywords text []) \<rparr>;
                 result = result\<lparr> best_practices_analysis :=
                            Some (section_loop best_practices_keywords text []) \<rparr>
             in Inr result))"

text \<open>The \<^verbatim>\<open>try\<close> block on any value: \<^verbatim>\<open>re.search\<close> raises on a value that is not a string.\<close>

definition parse_body :: "pyval \<Rightarrow> py_error + analysis" where
  "parse_body ai_content =
     (case ai_content of PyNone \<Rightarrow> Inl TypeError | PyStr text \<Rightarrow> parse_text text)"

text \<open>
  \<^verbatim>\<open>str(e)\<close> for the exception of \<^verbatim>\<open>re\<close>, in the wording of Python 3.10; later versions
  append the name of the offending type.
\<close>

definition error_text :: "py_error \<Rightarrow> pystr" where
  "error_text e = (case e of TypeError \<Rightarrow> str ''expected string or bytes-like object'')"

text \<open>
  The whole function: the \<^verbatim>\<open>except Exception\<close> branch returns a dictionary with the four
  keys \<^verbatim>\<open>overall_score\<close>, \<^verbatim>\<open>recommendations\<close>, \<^verbatim>\<open>error\<close> and \<^verbatim>\<open>raw_response\<close>.
\<close>

definition parse_ai_response :: "pyval \<Rightarrow> analysis" where
  "parse_ai_response ai_content =
     (case parse_body ai_content of
        Inr result \<Rightarrow> result
      | Inl e \<Rightarrow> \<lparr> overall_score = 0, recommendations = [],
                   architecture_analysis = None, performance_analysis = None,
                   security_analysis = None, best_practices_analysis = None,
                   error = Some (str ''Error parsing AI response: '' @ error_text e),
                   raw_response = ai_content \<rparr>)"

section \<open>The quality score of \<^verbatim>\<open>src/main.py\<close>\<close>

subsection \<open>\<^verbatim>\<open>analyze_code_quality\<close>\<close>

text \<open>
  \<^verbatim>\<open>score = min(100, max(60, 75 + (hash(str(file_counts)) % 20)))\<close>. The argument \<open>h\<close> is the
  value of the builtin \<^verbatim>\<open>hash\<close>, any integer; Python's \<^verbatim>\<open>%\<close> with a positive modulus is
  \<open>mod\<close> on \<^typ>\<open>int\<close>.
\<close>

definition code_quality_score :: "int \<Rightarrow> int" where
  "code_quality_score h = min 100 (max 60 (75 + h mod 20))"

subsection \<open>The arithmetic of \<^verbatim>\<open>int(0.7 * ai_score + 0.3 * code_quality)\<close>\<close>

text \<open>
  Python's \<^verbatim>\<open>float\<close> is a binary64 number. A finite one is written \<open>(m, e)\<close> for
  \<open>m * 2 ^ e\<close>; each operation computes the exact result and rounds it to 53 significant
  bits, ties to even. The exponent range (overflow, subnormal numbers) is not modelled: the
  operands of the source are scores between 0 and 100.
\<close>

type_synonym binary64 = "int \<times> int"

definition round53 :: "binary64 \<Rightarrow> binary64" where
  "round53 x =
     (case x of (m, e) \<Rightarrow>
        if bitlen \<bar>m\<bar> \<le> 53 then (m, e)
        else (let sh = nat (bitlen \<bar>m\<bar> - 53);
                  q = \<bar>m\<bar> div 2 ^ sh;
                  r = \<bar>m\<bar> mod 2 ^ sh;
                  half = 2 ^ (sh - 1);
                  q' = (if half < r \<or> (r = half \<and> odd q) then q + 1 else q)
              in (sgn m * q', e + int sh)))"

definition float_of_int :: "int \<Rightarrow> binary64" where
  "float_of_int a = round53 (a, 0)"

definition float_mul :: "binary64 \<Rightarrow> binary64 \<Rightarrow> binary64" where
  "float_mul x y = round53 (fst x * fst y, snd x + snd y)"

definition float_add :: "binary64 \<Rightarrow> binary64 \<Rightarrow> binary64" where
  "float_add x y =
     (let e = min (snd x) (snd y)
      in round53 (fst x * 2 ^ nat (snd x - e) + fst y * 2 ^ nat (snd y - e), e))"

text \<open>\<^verbatim>\<open>int(x)\<close> truncates towards zero.\<close>

definition int_of_float :: "binary64 \<Rightarrow> int" where
  "int_of_float x =
     (case x of (m, e) \<Rightarrow>
        if 0 \<le> e then m * 2 ^ nat e else sgn m * (\<bar>m\<bar> div 2 ^ nat (- e)))"

text \<open>The literals \<^verbatim>\<open>0.7\<close> and \<^verbatim>\<open>0.3\<close>: the binary64 numbers nearest to 7/10 and 3/10.\<close>

definition lit_0_7 :: binary64 where
  "lit_0_7 = (6305039478318694, - 53)"

definition lit_0_3 :: binary64 where
  "lit_0_3 = (5404319552844595, - 54)"

definition weighted_average :: "int \<Rightarrow> int \<Rightarrow> int" where
  "weighted_average ai_score code_quality =
     int_of_float (float_add (float_mul lit_0_7 (float_of_int ai_score))
                             (float_mul lit_0_3 (float_of_int code_quality)))"

subsection \<open>The blending step of \<^verbatim>\<open>analyze_github_repo\<close>\<close>

text \<open>Truth value of \<^verbatim>\<open>ai_analysis.get("error")\<close>: a key that is present with a non-empty string.\<close>

definition has_error :: "analysis \<Rightarrow> bool" where
  "has_error a = (case error a of None \<Rightarrow> False | Some msg \<Rightarrow> msg \<noteq> [])"

text \<open>
  \<^verbatim>\<open>quality_analysis["code_quality"]\<close> after the block that starts at
  \<^verbatim>\<open>if OPENROUTER_API_KEY:\<close>. \<open>api_key\<close> tells whether \<^verbatim>\<open>OPENROUTER_API_KEY\<close> is set,
  \<open>ai_analysis\<close> is the dictionary that \<^verbatim>\<open>analyze_with_ai\<close> returned and \<open>code_quality\<close> the
  score of \<^verbatim>\<open>analyze_code_quality\<close>.
\<close>

definition blended_code_quality :: "bool \<Rightarrow> analysis \<Rightarrow> int \<Rightarrow> int" where
  "blended_code_quality api_key ai_analysis code_quality =
     (if api_key then
        (if \<not> has_error ai_analysis \<and> recommendations ai_analysis \<noteq> [] then
           (let ai_score = overall_score ai_analysis
            in if 0 < ai_score then weighted_average ai_score code_quality
               else code_quality)
         else code_quality)
      else code_quality)"

section \<open>Notions used in the statements\<close>

text \<open>A pattern sets its group when every match of it leaves group 1 set.\<close>

definition sets_group :: "rx \<Rightarrow> bool" where
  "sets_group r = (\<forall>x y. y \<in> set (ms r x) \<longrightarrow> snd y \<noteq> None)"

text \<open>
  The score that the first match of a pattern contributes: the number that \<^verbatim>\<open>re.search\<close>
  captures, when it lies between 0 and 100, and nothing otherwise.
\<close>

definition first_match_score :: "rx \<Rightarrow> pystr \<Rightarrow> int option" where
  "first_match_score p s =
     (case re_search p s of
        Some (w, Some g) \<Rightarrow>
          (case py_int g of
             Some n \<Rightarrow> if 0 \<le> n \<and> n \<le> 100 then Some n else None
           | None \<Rightarrow> None)
      | _ \<Rightarrow> None)"

text \<open>
  No match of \<open>r\<close> begins inside \<open>pre\<close>, in the text that is \<open>pre\<close> followed by \<open>rest\<close>.
\<close>

fun no_match_before :: "rx \<Rightarrow> pystr \<Rightarrow> pystr \<Rightarrow> bool" where
  "no_match_before r [] rest = True"
| "no_match_before r (c # pre) rest =
     (ms r (c # pre @ rest, None) = [] \<and> no_match_before r pre rest)"

subsection \<open>Sentence windows\<close>

text \<open>
  The section pattern read on sentences instead of on a regular expression. The keyword
  occurs at the head of \<open>s\<close>, in any case; \<open>has_term s\<close> says that \<open>s\<close> holds a sentence
  boundary; \<open>after_sentence s\<close> is the text after the first boundary of \<open>s\<close>, and
  \<open>after_sentences n s\<close> the text after the first \<open>n\<close> boundaries, or after the last one when
  there are fewer.
\<close>

definition occurs_at :: "pystr \<Rightarrow> pystr \<Rightarrow> bool" where
  "occurs_at kw s = (length kw \<le> length s \<and> list_all2 ci_eq kw (take (length kw) s))"

definition has_term :: "pystr \<Rightarrow> bool" where
  "has_term s = (filter is_term s \<noteq> [])"

definition after_sentence :: "pystr \<Rightarrow> pystr" where
  "after_sentence s = tl (dropWhile not_term s)"

fun after_sentences :: "nat \<Rightarrow> pystr \<Rightarrow> pystr" where
  "after_sentences 0 s = s"
| "after_sentences (Suc n) s =
     (if has_term s then after_sentences n (after_sentence s) else s)"

text \<open>
  A window opens at the head of \<open>s\<close> when the keyword occurs there and a sentence boundary
  follows it. The window runs from the keyword to the end of its sentence and on over at
  most three more sentences that are closed by a boundary; \<open>window_rest\<close> is the text after
  the window.
\<close>

definition window_rest :: "pystr \<Rightarrow> pystr \<Rightarrow> pystr option" where
  "window_rest kw s =
     (if occurs_at kw s \<and> has_term (drop (length kw) s)
      then Some (after_sentences 3 (after_sentence (drop (length kw) s)))
      else None)"

text \<open>
  The windows of a text, from left to right: after a window the scan resumes behind it, so
  that an occurrence of the keyword inside a window opens no window of its own.
\<close>

fun window_scan :: "pystr \<Rightarrow> nat \<Rightarrow> pystr \<Rightarrow> pystr list" where
  "window_scan kw k [] = []"
| "window_scan kw k (c # cs) =
     (if 0 < k then window_scan kw (k - 1) cs
      else (case window_rest kw (c # cs) of
              None \<Rightarrow> window_scan kw 0 cs
            | Some rest \<Rightarrow>
                take (length (c # cs) - length rest) (c # cs)
                  # window_scan kw (length (c # cs) - length rest - 1) cs))"

subsection \<open>The section extractor as the specification words it\<close>

text \<open>
  The specification says: for the first keyword that occurs, take for every occurrence of
  it the sentence that contains the occurrence and up to three following sentences, and
  join these excerpts with a single space. \<open>sentences\<close> cuts a text behind every boundary
  and keeps the boundaries; an occurrence lies inside one sentence, since a keyword holds
  no boundary.
\<close>

fun sentences :: "pystr \<Rightarrow> pystr list" where
  "sentences [] = []"
| "sentences (c # cs) =
     (if is_term c then [c] # sentences cs
      else (case sentences cs of [] \<Rightarrow> [[c]] | x # xs \<Rightarrow> (c # x) # xs))"

definition count_occurrences :: "pystr \<Rightarrow> pystr \<Rightarrow> nat" where
  "count_occurrences kw s = length (filter (\<lambda>i. occurs_at kw (drop i s)) [0..<length s])"

fun claimed_excerpts :: "pystr \<Rightarrow> pystr list \<Rightarrow> pystr list" where
  "claimed_excerpts kw [] = []"
| "claimed_excerpts kw (x # xs) =
     replicate (count_occurrences kw x) (concat (take 4 (x # xs))) @ claimed_excerpts kw xs"

fun claimed_section :: "pystr list \<Rightarrow> pystr \<Rightarrow> pystr \<Rightarrow> pystr" where
  "claimed_section [] s cur = cur"
| "claimed_section (k # ks) s cur =
     (let excerpts = claimed_excerpts k (sentences s)
      in if excerpts \<noteq> [] then join_space excerpts else claimed_section ks s cur)"

section \<open>Properties of the matcher\<close>

lemma upto_iter_invariant:
  assumes step: "\<And>x y. P x \<Longrightarrow> y \<in> set (f x) \<Longrightarrow> P y"
  shows "P x \<Longrightarrow> y \<in> set (upto_iter f n x) \<Longrightarrow> P y"
proof (induction n arbitrary: x)
  case 0
  then show ?case by simp
next
  case (Suc n)
  from Suc.prems(2) consider "y = x" | z where "z \<in> set (f x)" "y \<in> set (upto_iter f n z)"
    by auto
  then show ?case
  proof cases
    case 1
    with Suc.prems(1) show ?thesis by simp
  next
    case 2
    with Suc.IH step Suc.prems(1) show ?thesis by blast
  qed
qed

lemma ms_keeps_group:
  "y \<in> set (ms r x) \<Longrightarrow> snd x \<noteq> None \<Longrightarrow> snd y \<noteq> None"
proof (induction r arbitrary: x y)
  case (Cls p)
  then show ?case by (cases x) (auto split: list.splits if_splits)
next
  case (Cat a b)
  from Cat.prems(1) obtain z where "z \<in> set (ms a x)" "y \<in> set (ms b z)"
    by auto
  with Cat.IH Cat.prems(2) show ?case by blast
next
  case (CRep p lo hi greedy)
  then show ?case by (cases x) auto
next
  case (Upto n r)
  have "snd x \<noteq> None \<Longrightarrow> y \<in> set (upto_iter (\<lambda>x. ms r x) n x) \<Longrightarrow> snd y \<noteq> None"
    by (rule upto_iter_invariant [where P = "\<lambda>x. snd x \<noteq> None"]) (use Upto.IH in blast)
  with Upto.prems show ?case by simp
next
  case (Grp r)
  then show ?case by (cases x) auto
next
  case (Ahead r)
  then show ?case by (auto split: if_splits)
next
  case Eos
  then show ?case by (cases x) (auto split: if_splits)
qed auto

lemma ms_Grp_sets_group: "y \<in> set (ms (Grp r) x) \<Longrightarrow> snd y \<noteq> None"
  by (cases x) auto

lemma sets_group_Grp: "sets_group (Grp r)"
  unfolding sets_group_def using ms_Grp_sets_group by blast

lemma sets_group_Cat_right: "sets_group b \<Longrightarrow> sets_group (Cat a b)"
  unfolding sets_group_def by auto

lemma sets_group_Cat_left: "sets_group a \<Longrightarrow> sets_group (Cat a b)"
  unfolding sets_group_def using ms_keeps_group by auto

lemma sets_group_pat_slash: "sets_group pat_slash"
  unfolding pat_slash_def by (rule sets_group_Cat_left) (rule sets_group_Grp)

lemma sets_group_pat_out_of: "sets_group pat_out_of"
  unfolding pat_out_of_def by (rule sets_group_Cat_left) (rule sets_group_Grp)

lemma sets_group_pat_label: "sets_group (pat_label w)"
  unfolding pat_label_def by (intro sets_group_Cat_right sets_group_Grp)

lemma sets_group_score_patterns: "p \<in> set score_patterns \<Longrightarrow> sets_group p"
  unfolding score_patterns_def
  using sets_group_pat_slash sets_group_pat_out_of sets_group_pat_label by auto

lemma re_search_group:
  "sets_group r \<Longrightarrow> re_search r s = Some (w, g) \<Longrightarrow> g \<noteq> None"
proof (induction s)
  case Nil
  then show ?case
    by (auto simp: sets_group_def split: list.splits) (metis list.set_intros(1))
next
  case (Cons c cs)
  then show ?case
    by (auto simp: sets_group_def split: list.splits) (metis list.set_intros(1))
qed

section \<open>The parser returns a result on every pystr\<close>

lemma score_loop_total:
  "\<forall>p \<in> set ps. sets_group p \<Longrightarrow> \<exists>n. score_loop ps s cur = Inr n"
proof (induction ps)
  case Nil
  then show ?case by simp
next
  case (Cons p ps)
  then show ?case
    by (auto split: option.splits dest: re_search_group)
qed

lemma extract_score_total: "\<exists>n. extract_score s = Inr n"
  unfolding extract_score_def
  by (rule score_loop_total) (simp add: sets_group_score_patterns)

lemma collect_recommendations_eq:
  "collect_recommendations s =
     stripped_nonempty (findall_group numbered_pattern s)
     @ stripped_nonempty (findall_group bullet_pattern s)"
  by (simp add: collect_recommendations_def Let_def stripped_nonempty_def)

lemma parse_text_Inr:
  "extract_score s = Inr n \<Longrightarrow>
   parse_text s = Inr \<lparr> overall_score = n,
     recommendations = take 10 (collect_recommendations s),
     architecture_analysis = Some (section_loop architecture_keywords s []),
     performance_analysis = Some (section_loop performance_keywords s []),
     security_analysis = Some (section_loop security_keywords s []),
     best_practices_analysis = Some (section_loop best_practices_keywords s []),
     error = None, raw_response = PyStr s \<rparr>"
  by (simp add: parse_text_def Let_def)

lemma parse_str_fields:
  "\<exists>n. extract_score s = Inr n \<and>
     parse_body (PyStr s) = Inr (parse_ai_response (PyStr s)) \<and>
     parse_ai_response (PyStr s) = \<lparr> overall_score = n,
     recommendations = take 10 (collect_recommendations s),
     architecture_analysis = Some (section_loop architecture_keywords s []),
     performance_analysis = Some (section_loop performance_keywords s []),
     security_analysis = Some (section_loop security_keywords s []),
     best_practices_analysis = Some (section_loop best_practices_keywords s []),
     error = None, raw_response = PyStr s \<rparr>"
proof -
  obtain n where n: "extract_score s = Inr n"
    using extract_score_total by blast
  then show ?thesis
    by (simp add: parse_ai_response_def parse_body_def parse_text_Inr)
qed

section \<open>The raw response\<close>

text \<open>
  Claim C9. For every input, string or not, the \<^verbatim>\<open>raw_response\<close> field of the dictionary
  that \<^verbatim>\<open>parse_ai_response\<close> returns is the input itself, on the path through the \<^verbatim>\<open>try\<close>
  block and on the path through the \<^verbatim>\<open>except\<close> branch.
\<close>

theorem raw_response_preserved: "raw_response (parse_ai_response ai_content) = ai_content"
proof (cases ai_content)
  case PyNone
  then show ?thesis by (simp add: parse_ai_response_def parse_body_def)
next
  case (PyStr s)
  with parse_str_fields [of s] show ?thesis by auto
qed

section \<open>Recommendations\<close>

text \<open>
  Claim C7. On every text both \<^verbatim>\<open>findall\<close> calls run, and the recommendations of the result
  are the first ten entries of the trimmed, non-empty captures of the numbered pattern
  followed by the trimmed, non-empty captures of the bullet pattern.
\<close>

theorem recommendations_concatenation:
  "recommendations (parse_ai_response (PyStr s)) =
     take 10 (stripped_nonempty (findall_group numbered_pattern s)
              @ stripped_nonempty (findall_group bullet_pattern s))"
proof -
  from parse_str_fields [of s]
  have "recommendations (parse_ai_response (PyStr s)) = take 10 (collect_recommendations s)"
    by auto
  then show ?thesis by (simp only: collect_recommendations_eq)
qed

text \<open>A list written with the bullet glyph U+2022.\<close>

lemma bullet_glyph_recommendations:
  "recommendations
     (parse_ai_response (PyStr (0x2022 # str '' Add tests'' @ 10 # 0x2022 # str '' Fix bugs'')))
     = [str ''Add tests'', str ''Fix bugs'']"
  by code_simp

lemma strip_hd: "strip s \<noteq> [] \<Longrightarrow> \<not> is_space (hd (strip s))"
proof -
  assume ne: "strip s \<noteq> []"
  let ?t = "dropWhile is_space s"
  have t: "?t \<noteq> []"
  proof
    assume "?t = []"
    then have "strip s = []" by (simp add: strip_def del: dropWhile_eq_Nil_conv)
    with ne show False by simp
  qed
  then have h: "\<not> is_space (hd ?t)" by (rule hd_dropWhile)
  obtain a b where ab: "strip s = a # b" using ne by (cases "strip s") auto
  have "?t = rev (dropWhile is_space (rev ?t)) @ rev (takeWhile is_space (rev ?t))"
    by (metis rev_append rev_rev_ident takeWhile_dropWhile_id)
  then have "?t = strip s @ rev (takeWhile is_space (rev ?t))"
    unfolding strip_def .
  then obtain zs where "?t = strip s @ zs" by blast
  with ab have "hd ?t = a" by simp
  with h ab show ?thesis by simp
qed

lemma strip_last: "strip s \<noteq> [] \<Longrightarrow> \<not> is_space (last (strip s))"
proof -
  assume ne: "strip s \<noteq> []"
  then have "dropWhile is_space (rev (dropWhile is_space s)) \<noteq> []"
    by (simp add: strip_def)
  then have "\<not> is_space (hd (dropWhile is_space (rev (dropWhile is_space s))))"
    by (rule hd_dropWhile)
  then show ?thesis
    using ne by (simp add: strip_def last_rev)
qed

lemma stripped_nonempty_entries:
  "r \<in> set (stripped_nonempty xs) \<Longrightarrow> r \<noteq> [] \<and> \<not> is_space (hd r) \<and> \<not> is_space (last r)"
  by (auto simp: stripped_nonempty_def strip_hd strip_last)

text \<open>
  Claim C6. For every input the recommendations of the result are at most ten, and each one
  is a non-empty string whose first and last characters are not whitespace.
\<close>

theorem recommendations_bounded_trimmed:
  "length (recommendations (parse_ai_response ai_content)) \<le> 10 \<and>
   (\<forall>r \<in> set (recommendations (parse_ai_response ai_content)).
      r \<noteq> [] \<and> \<not> is_space (hd r) \<and> \<not> is_space (last r))"
proof (cases ai_content)
  case PyNone
  then show ?thesis by (simp add: parse_ai_response_def parse_body_def)
next
  case (PyStr s)
  have r: "recommendations (parse_ai_response ai_content) = take 10 (collect_recommendations s)"
    using parse_str_fields [of s] PyStr by auto
  have "\<forall>x \<in> set (collect_recommendations s).
          x \<noteq> [] \<and> \<not> is_space (hd x) \<and> \<not> is_space (last x)"
    unfolding collect_recommendations_eq using stripped_nonempty_entries by auto
  then show ?thesis
    unfolding r by (auto dest: in_set_takeD)
qed

theorem recommendations_bounded_trimmed_witness:
  "str ''Add tests'' \<in> set (recommendations (parse_ai_response (PyStr (str ''1.  Add tests ''))))
   \<and> length (recommendations (parse_ai_response (PyStr (str ''1.  Add tests '')))) \<le> 10
   \<and> str ''Add tests'' \<noteq> [] \<and> \<not> is_space (hd (str ''Add tests''))
   \<and> \<not> is_space (last (str ''Add tests''))"
proof -
  have m: "str ''Add tests'' \<in> set (recommendations (parse_ai_response (PyStr (str ''1.  Add tests ''))))"
    by code_simp
  from recommendations_bounded_trimmed [of "PyStr (str ''1.  Add tests '')"] m
  show ?thesis by blast
qed

section \<open>The fallback score\<close>

text \<open>
  Claim C10. Whatever the hash of the file counts is, the \<^verbatim>\<open>code_quality\<close> score of
  \<^verbatim>\<open>analyze_code_quality\<close> is an integer between 60 and 100.
\<close>

theorem code_quality_score_range:
  "60 \<le> code_quality_score h \<and> code_quality_score h \<le> 100"
  unfolding code_quality_score_def by simp

text \<open>The hash term is between 0 and 19, so the score is in fact between 75 and 94.\<close>

lemma code_quality_score_tight: "75 \<le> code_quality_score h \<and> code_quality_score h \<le> 94"
proof -
  have "0 \<le> h mod 20" "h mod 20 < 20" by simp_all
  then show ?thesis unfolding code_quality_score_def by linarith
qed

section \<open>The score\<close>

lemma score_loop_first:
  "\<forall>p \<in> set ps. sets_group p \<Longrightarrow>
   score_loop ps s cur =
     Inr (case List.map_filter (\<lambda>p. first_match_score p s) ps of [] \<Rightarrow> cur | k # _ \<Rightarrow> k)"
proof (induction ps)
  case Nil
  then show ?case by (simp add: List.map_filter_simps)
next
  case (Cons p ps)
  then have g: "sets_group p" and IH: "score_loop ps s cur =
     Inr (case List.map_filter (\<lambda>p. first_match_score p s) ps of [] \<Rightarrow> cur | k # _ \<Rightarrow> k)"
    by simp_all
  show ?case
  proof (cases "re_search p s")
    case None
    then show ?thesis by (simp add: IH List.map_filter_simps first_match_score_def)
  next
    case (Some m)
    obtain w g' where m: "m = (w, g')" by (cases m)
    with Some g obtain t where t: "g' = Some t"
      using re_search_group by blast
    show ?thesis
      using Some m t
      by (simp add: IH List.map_filter_simps first_match_score_def split: option.splits)
  qed
qed

lemma first_match_score_range: "first_match_score p s = Some n \<Longrightarrow> 0 \<le> n \<and> n \<le> 100"
  by (auto simp: first_match_score_def split: option.splits if_splits)

lemma map_filter_hd_range:
  "List.map_filter (\<lambda>p. first_match_score p s) ps = k # ks \<Longrightarrow> 0 \<le> k \<and> k \<le> 100"
proof -
  assume a: "List.map_filter (\<lambda>p. first_match_score p s) ps = k # ks"
  then have "k \<in> set (List.map_filter (\<lambda>p. first_match_score p s) ps)" by simp
  then obtain p where "first_match_score p s = Some k"
    by (auto simp: List.map_filter_def)
  then show ?thesis by (rule first_match_score_range)
qed

lemma extract_score_first:
  "extract_score s =
     Inr (case List.map_filter (\<lambda>p. first_match_score p s) score_patterns of
            [] \<Rightarrow> 0 | k # _ \<Rightarrow> k)"
  unfolding extract_score_def
  by (rule score_loop_first) (simp add: sets_group_score_patterns)

lemma extract_score_bounds: "extract_score s = Inr n \<Longrightarrow> 0 \<le> n \<and> n \<le> 100"
  using extract_score_first [of s] map_filter_hd_range [of s score_patterns]
  by (cases "List.map_filter (\<lambda>p. first_match_score p s) score_patterns") auto

text \<open>
  Claim C5. On every text the score loop ends with an integer between 0 and 100. Each
  pattern takes part with its first match only: the score is the number captured by the
  first match of the first pattern, in the order of the list, whose first match captures a
  number between 0 and 100; a pattern whose first match captures a number above 100 is
  passed over whatever its later matches are, and the score is 0 when no pattern qualifies.
\<close>

theorem extract_score_range_priority:
  "\<exists>n. extract_score s = Inr n \<and> 0 \<le> n \<and> n \<le> 100 \<and>
       n = (case List.map_filter (\<lambda>p. first_match_score p s) score_patterns of
              [] \<Rightarrow> 0 | k # _ \<Rightarrow> k)"
  using extract_score_first [of s] extract_score_bounds [of s] by blast

text \<open>
  The first match of the first pattern is \<^verbatim>\<open>150/100\<close>; its later match \<^verbatim>\<open>50/100\<close> is not
  looked at, and the third pattern gives the score.
\<close>

lemma rejected_pattern_is_not_retried:
  "extract_score (str ''150/100 and 50/100 score: 70'') = Inr 70"
  by code_simp

lemma overall_score_range:
  "0 \<le> overall_score (parse_ai_response v) \<and> overall_score (parse_ai_response v) \<le> 100"
proof (cases v)
  case PyNone
  then show ?thesis by (simp add: parse_ai_response_def parse_body_def)
next
  case (PyStr s)
  from parse_str_fields [of s] obtain n where
    n: "extract_score s = Inr n" "overall_score (parse_ai_response (PyStr s)) = n"
    by auto
  with extract_score_bounds [of s n] PyStr show ?thesis by simp
qed

subsection \<open>Texts that contain \<^verbatim>\<open>87/100\<close>\<close>

text \<open>
  Claim C4 as it is stated fails: the text \<^verbatim>\<open>187/100\<close> contains \<^verbatim>\<open>87/100\<close>, the first
  match of the first pattern captures 187, no other pattern matches, and the score is 0.
\<close>

theorem score_87_counterexample:
  "extract_score (str ''1'' @ str ''87/100'' @ str '''') = Inr 0
   \<and> extract_score (str ''1'' @ str ''87/100'' @ str '''') \<noteq> Inr 87"
  by code_simp

lemma re_search_head:
  "ms r (s, None) = (rest, g) # others \<Longrightarrow> s \<noteq> [] \<Longrightarrow>
   re_search r s = Some (take (length s - length rest) s, g)"
  by (cases s) auto

lemma ms_pat_slash_no_digit: "\<not> is_digit c \<Longrightarrow> ms pat_slash (c # cs, g) = []"
  by (simp add: pat_slash_def digits_def)

lemma ms_pat_slash_87:
  "ms pat_slash (str ''87/100'' @ post, None) = [(post, Some (str ''87''))]"
  by (simp add: str_def pat_slash_def digits_def spaces_def is_digit_def digit_zero_def
      digit_zeros_def is_space_def ci_eq_def ascii_lower_def)

lemma re_search_pat_slash_87:
  "no_match_before pat_slash pre (str ''87/100'' @ post) \<Longrightarrow>
   re_search pat_slash (pre @ str ''87/100'' @ post) = Some (str ''87/100'', Some (str ''87''))"
proof (induction pre)
  case Nil
  have "str ''87/100'' @ post \<noteq> []" by (simp add: str_def)
  with ms_pat_slash_87 [of post]
  have "re_search pat_slash (str ''87/100'' @ post) =
          Some (take (length (str ''87/100'' @ post) - length post) (str ''87/100'' @ post),
                Some (str ''87''))"
    by (rule re_search_head)
  then show ?case by simp
next
  case (Cons c pre)
  then show ?case by simp
qed

lemma py_int_87: "py_int (str ''87'') = Some 87"
  by (simp add: str_def py_int_def is_digit_def digit_zero_def digit_zeros_def digit_val_def)

text \<open>No digit before the occurrence is enough for no match to begin before it.\<close>

lemma no_digit_no_match_before:
  "\<forall>c \<in> set pre. \<not> is_digit c \<Longrightarrow> no_match_before pat_slash pre rest"
  by (induction pre) (simp_all add: ms_pat_slash_no_digit)

text \<open>
  Claim C4, amended. For every text that contains \<^verbatim>\<open>87/100\<close> at a place before which no
  match of the first score pattern begins, the score is 87, whatever follows. The first
  score pattern is one to three digits, optional whitespace, a slash, optional whitespace
  and \<^verbatim>\<open>100\<close>; no match of it begins before the occurrence when, for one, no digit stands
  anywhere before it.
\<close>

theorem score_87_leftmost_match:
  "no_match_before pat_slash pre (str ''87/100'' @ post) \<Longrightarrow>
   extract_score (pre @ str ''87/100'' @ post) = Inr 87"
proof -
  assume h: "no_match_before pat_slash pre (str ''87/100'' @ post)"
  have r: "re_search pat_slash (pre @ str ''87/100'' @ post)
             = Some (str ''87/100'', Some (str ''87''))"
    using h by (rule re_search_pat_slash_87)
  have "score_loop (pat_slash # ps) (pre @ str ''87/100'' @ post) 0 = Inr 87" for ps
    unfolding score_loop.simps r by (simp add: py_int_87)
  then show ?thesis
    unfolding extract_score_def score_patterns_def .
qed

theorem score_87_leftmost_match_witness:
  "extract_score (str ''Repo has 3 files. Score '' @ str ''87/100'' @ str '' overall.'')
     = Inr 87"
proof -
  have h: "no_match_before pat_slash (str ''Repo has 3 files. Score '')
             (str ''87/100'' @ str '' overall.'')"
    by code_simp
  from score_87_leftmost_match [OF h] show ?thesis .
qed

text \<open>A numbered list before the score does not change it.\<close>

lemma score_87_after_list_marker:
  "extract_score (str ''1. Overall: 87/100'') = Inr 87"
  by code_simp

section \<open>Failure and defaults\<close>

text \<open>
  Claim C1 as it is stated fails on the only path that reaches the \<^verbatim>\<open>except\<close> branch: for
  the input \<^verbatim>\<open>None\<close> the \<^verbatim>\<open>try\<close> block raises, and the dictionary returned has no key for
  any of the four section analyses, where the claim has them present and empty.
\<close>

theorem exception_path_sections_absent:
  "parse_body PyNone = Inl TypeError \<and>
   architecture_analysis (parse_ai_response PyNone) \<noteq> Some [] \<and>
   performance_analysis (parse_ai_response PyNone) \<noteq> Some [] \<and>
   security_analysis (parse_ai_response PyNone) \<noteq> Some [] \<and>
   best_practices_analysis (parse_ai_response PyNone) \<noteq> Some []"
  by (simp add: parse_body_def parse_ai_response_def)

text \<open>
  Claim C1, amended. On every string the \<^verbatim>\<open>try\<close> block ends without an exception, and
  \<^verbatim>\<open>parse_ai_response\<close> returns its result, which carries no error. Whenever the \<^verbatim>\<open>try\<close>
  block raises, \<^verbatim>\<open>parse_ai_response\<close> still returns: a dictionary with \<^verbatim>\<open>overall_score\<close> 0, no
  recommendations, the input as \<^verbatim>\<open>raw_response\<close>, an error text, and none of the four section
  keys.
\<close>

theorem parse_never_raises:
  "(\<exists>r. parse_body (PyStr s) = Inr r \<and> parse_ai_response (PyStr s) = r \<and> error r = None)
   \<and> (parse_body v = Inl e \<longrightarrow>
        parse_ai_response v =
          \<lparr> overall_score = 0, recommendations = [],
            architecture_analysis = None, performance_analysis = None,
            security_analysis = None, best_practices_analysis = None,
            error = Some (str ''Error parsing AI response: '' @ error_text e),
            raw_response = v \<rparr>)"
proof -
  from parse_str_fields [of s]
  have "parse_body (PyStr s) = Inr (parse_ai_response (PyStr s))"
    and "error (parse_ai_response (PyStr s)) = None"
    by auto
  then show ?thesis by (auto simp: parse_ai_response_def)
qed

theorem parse_never_raises_witness:
  "parse_body PyNone = Inl TypeError \<and>
   parse_ai_response PyNone =
          \<lparr> overall_score = 0, recommendations = [],
            architecture_analysis = None, performance_analysis = None,
            security_analysis = None, best_practices_analysis = None,
            error = Some (str ''Error parsing AI response: expected string or bytes-like object''),
            raw_response = PyNone \<rparr>"
proof -
  have h: "parse_body PyNone = Inl TypeError" by (simp add: parse_body_def)
  from parse_never_raises [of "str ''ok''" PyNone TypeError] h
  show ?thesis by (simp add: error_text_def str_def)
qed

lemma score_loop_no_match:
  "\<forall>p \<in> set ps. re_search p s = None \<Longrightarrow> score_loop ps s cur = Inr cur"
  by (induction ps) auto

lemma section_loop_no_match:
  "\<forall>k \<in> set ks. findall_whole (section_pattern k) s = [] \<Longrightarrow> section_loop ks s cur = cur"
  by (induction ks) (auto simp: Let_def)

text \<open>
  Claim C8. On every text on which no score pattern has a match, neither recommendation
  pattern has a match and no section pattern of any keyword has a match, the \<^verbatim>\<open>try\<close> block
  ends without an exception and the result has \<^verbatim>\<open>overall_score\<close> 0, no recommendations, the
  four section fields empty, the text as \<^verbatim>\<open>raw_response\<close> and no error. The empty text is one
  of them.
\<close>

theorem no_match_defaults:
  assumes "\<forall>p \<in> set score_patterns. re_search p s = None"
    and "findall_group numbered_pattern s = []"
    and "findall_group bullet_pattern s = []"
    and "\<forall>k \<in> set (architecture_keywords @ performance_keywords
                      @ security_keywords @ best_practices_keywords).
           findall_whole (section_pattern k) s = []"
  shows "parse_body (PyStr s) = Inr (parse_ai_response (PyStr s)) \<and>
         parse_ai_response (PyStr s) =
          \<lparr> overall_score = 0, recommendations = [],
            architecture_analysis = Some [], performance_analysis = Some [],
            security_analysis = Some [], best_practices_analysis = Some [],
            error = None, raw_response = PyStr s \<rparr>"
proof -
  have sc: "extract_score s = Inr 0"
    unfolding extract_score_def using assms(1) by (rule score_loop_no_match)
  have rc: "collect_recommendations s = []"
    using assms(2,3) by (simp add: collect_recommendations_def)
  have a: "section_loop architecture_keywords s [] = []"
    using assms(4) by (intro section_loop_no_match) simp
  have p: "section_loop performance_keywords s [] = []"
    using assms(4) by (intro section_loop_no_match) simp
  have se: "section_loop security_keywords s [] = []"
    using assms(4) by (intro section_loop_no_match) simp
  have b: "section_loop best_practices_keywords s [] = []"
    using assms(4) by (intro section_loop_no_match) simp
  from parse_str_fields [of s] sc rc a p se b show ?thesis by auto
qed

theorem no_match_defaults_witness:
  "parse_body (PyStr (str '''')) = Inr (parse_ai_response (PyStr (str ''''))) \<and>
   parse_ai_response (PyStr (str '''')) =
          \<lparr> overall_score = 0, recommendations = [],
            architecture_analysis = Some [], performance_analysis = Some [],
            security_analysis = Some [], best_practices_analysis = Some [],
            error = None, raw_response = PyStr (str '''') \<rparr>"
proof -
  have h1: "\<forall>p \<in> set score_patterns. re_search p (str '''') = None" by code_simp
  have h2: "findall_group numbered_pattern (str '''') = []" by code_simp
  have h3: "findall_group bullet_pattern (str '''') = []" by code_simp
  have h4: "\<forall>k \<in> set (architecture_keywords @ performance_keywords
                      @ security_keywords @ best_practices_keywords).
           findall_whole (section_pattern k) (str '''') = []" by code_simp
  from no_match_defaults [OF h1 h2 h3 h4] show ?thesis .
qed

section \<open>Blending\<close>

lemma has_error_parse_str: "\<not> has_error (parse_ai_response (PyStr s))"
  using parse_str_fields [of s] by (auto simp: has_error_def)

text \<open>
  Claim C3 as it is stated fails: the reply \<^verbatim>\<open>Overall 87/100\<close> has the score 87 and no
  recommendation, and with the key set and a fallback score of 75 the final score stays 75,
  where the weighted average is 83.
\<close>

theorem blending_counterexample:
  "overall_score (parse_ai_response (PyStr (str ''Overall 87/100''))) = 87 \<and>
   blended_code_quality True (parse_ai_response (PyStr (str ''Overall 87/100''))) 75 = 75 \<and>
   weighted_average 87 75 = 83"
  by code_simp

text \<open>
  Claim C3, amended. The final \<^verbatim>\<open>code_quality\<close> is \<^verbatim>\<open>int(0.7 * ai_score + 0.3 * code_quality)\<close>
  exactly when the API key is set, the AI analysis carries no error, it has at least one
  recommendation and its score is above zero; in every other case the fallback score is
  kept. For the analysis parsed from a string this is: the key is set, there is a
  recommendation and the score is not zero.
\<close>

theorem blending_condition:
  "blended_code_quality api_key ai_analysis code_quality =
     (if api_key \<and> \<not> has_error ai_analysis \<and> recommendations ai_analysis \<noteq> []
         \<and> 0 < overall_score ai_analysis
      then weighted_average (overall_score ai_analysis) code_quality
      else code_quality)
   \<and> blended_code_quality api_key (parse_ai_response (PyStr s)) code_quality =
     (if api_key \<and> recommendations (parse_ai_response (PyStr s)) \<noteq> []
         \<and> overall_score (parse_ai_response (PyStr s)) \<noteq> 0
      then weighted_average (overall_score (parse_ai_response (PyStr s))) code_quality
      else code_quality)"
proof -
  have "0 \<le> overall_score (parse_ai_response (PyStr s))"
    using overall_score_range by blast
  then have "(0 < overall_score (parse_ai_response (PyStr s)))
               = (overall_score (parse_ai_response (PyStr s)) \<noteq> 0)"
    by linarith
  then show ?thesis
    by (simp add: blended_code_quality_def Let_def has_error_parse_str)
qed

section \<open>Sections\<close>

lemma occurs_at_Nil [simp]: "occurs_at [] s"
  by (simp add: occurs_at_def)

lemma occurs_at_Cons_Nil [simp]: "\<not> occurs_at (k # ks) []"
  by (simp add: occurs_at_def)

lemma occurs_at_Cons_Cons [simp]:
  "occurs_at (k # ks) (c # cs) = (ci_eq k c \<and> occurs_at ks cs)"
  by (auto simp: occurs_at_def)

lemma ms_ilit:
  "ms (ilit kw) (s, g) = (if occurs_at kw s then [(drop (length kw) s, g)] else [])"
proof (induction kw arbitrary: s)
  case Nil
  then show ?case by simp
next
  case (Cons k ks)
  then show ?case by (cases s) auto
qed

lemma has_term_Cons [simp]: "has_term (c # cs) = (is_term c \<or> has_term cs)"
  by (simp add: has_term_def)

lemma has_term_Nil [simp]: "\<not> has_term []"
  by (simp add: has_term_def)

lemma ms_sentence_end:
  "ms sentence_end (s, g) = (if has_term s then [(after_sentence s, g)] else [])"
proof (induction s)
  case Nil
  then show ?case by (simp add: sentence_end_def)
next
  case (Cons c cs)
  have "ms sentence_end (c # cs, g) =
          (if not_term c then ms sentence_end (cs, g) else []) @ ms (Cls is_term) (c # cs, g)"
    by (simp add: sentence_end_def)
  then show ?case
    using Cons.IH by (auto simp: not_term_def after_sentence_def)
qed

lemma upto_iter_sentences:
  "\<exists>rest. upto_iter (\<lambda>x. ms sentence_end x) n (s, g) = (after_sentences n s, g) # rest"
proof (induction n arbitrary: s)
  case 0
  then show ?case by simp
next
  case (Suc n)
  show ?case
  proof (cases "has_term s")
    case True
    from Suc.IH [of "after_sentence s"] obtain rest where
      "upto_iter (\<lambda>x. ms sentence_end x) n (after_sentence s, g)
         = (after_sentences n (after_sentence s), g) # rest" by blast
    with True show ?thesis by (simp add: ms_sentence_end)
  next
    case False
    then show ?thesis by (simp add: ms_sentence_end)
  qed
qed

lemma ms_section_pattern:
  "case window_rest kw s of
     None \<Rightarrow> ms (section_pattern kw) (s, g) = []
   | Some rest \<Rightarrow> (\<exists>more. ms (section_pattern kw) (s, g) = (rest, g) # more)"
proof (cases "occurs_at kw s \<and> has_term (drop (length kw) s)")
  case True
  from upto_iter_sentences [of 3 "after_sentence (drop (length kw) s)" g]
  obtain more where
    "upto_iter (\<lambda>x. ms sentence_end x) 3 (after_sentence (drop (length kw) s), g)
       = (after_sentences 3 (after_sentence (drop (length kw) s)), g) # more" by blast
  with True show ?thesis
    by (simp add: window_rest_def section_pattern_def ms_ilit ms_sentence_end)
next
  case False
  then show ?thesis
    by (auto simp: window_rest_def section_pattern_def ms_ilit ms_sentence_end)
qed

lemma re_scan_section_pattern:
  "map fst (re_scan (section_pattern kw) k s) = window_scan kw k s"
proof (induction s arbitrary: k)
  case Nil
  have "window_rest kw [] = None" by (simp add: window_rest_def)
  with ms_section_pattern [of kw "[]" None] show ?case by simp
next
  case (Cons c cs)
  show ?case
  proof (cases "window_rest kw (c # cs)")
    case None
    with ms_section_pattern [of kw "c # cs" None]
    have "ms (section_pattern kw) (c # cs, None) = []" by simp
    with None Cons.IH show ?thesis by simp
  next
    case (Some rest)
    with ms_section_pattern [of kw "c # cs" None]
    obtain more where "ms (section_pattern kw) (c # cs, None) = (rest, None) # more" by auto
    with Some Cons.IH show ?thesis by simp
  qed
qed

lemma findall_section_pattern:
  "findall_whole (section_pattern kw) s = window_scan kw 0 s"
  by (simp add: findall_whole_def re_scan_section_pattern)

subsection \<open>The shape of a window\<close>

lemma after_sentence_split:
  "has_term s \<Longrightarrow> \<exists>b t. s = b @ t # after_sentence s \<and> filter is_term b = [] \<and> is_term t"
proof (induction s)
  case Nil
  then show ?case by simp
next
  case (Cons c cs)
  show ?case
  proof (cases "is_term c")
    case True
    then have "c # cs = [] @ c # after_sentence (c # cs)"
      by (simp add: after_sentence_def not_term_def)
    with True show ?thesis by (metis filter.simps(1))
  next
    case False
    with Cons.prems have "has_term cs" by simp
    with Cons.IH obtain b t where
      bt: "cs = b @ t # after_sentence cs" "filter is_term b = []" "is_term t" by blast
    from False have "after_sentence (c # cs) = after_sentence cs"
      by (simp add: after_sentence_def not_term_def)
    with bt False have "c # cs = (c # b) @ t # after_sentence (c # cs) \<and>
        filter is_term (c # b) = [] \<and> is_term t" by simp
    then show ?thesis by blast
  qed
qed

lemma after_sentences_split:
  "\<exists>e. s = e @ after_sentences n s \<and> length (filter is_term e) \<le> n
       \<and> (e \<noteq> [] \<longrightarrow> is_term (last e))
       \<and> (length (filter is_term e) < n \<longrightarrow> \<not> has_term (after_sentences n s))"
proof (induction n arbitrary: s)
  case 0
  then show ?case by simp
next
  case (Suc n)
  show ?case
  proof (cases "has_term s")
    case False
    then show ?thesis by simp
  next
    case True
    then obtain b t where
      bt: "s = b @ t # after_sentence s" "filter is_term b = []" "is_term t"
      using after_sentence_split by blast
    from Suc.IH [of "after_sentence s"] obtain e where
      e: "after_sentence s = e @ after_sentences n (after_sentence s)"
         "length (filter is_term e) \<le> n"
         "e \<noteq> [] \<longrightarrow> is_term (last e)"
         "length (filter is_term e) < n \<longrightarrow> \<not> has_term (after_sentences n (after_sentence s))"
      by blast
    let ?e = "b @ t # e"
    have 1: "s = ?e @ after_sentences (Suc n) s"
      using True bt(1) e(1) by (metis append_Cons append_assoc after_sentences.simps(2))
    have 2: "length (filter is_term ?e) = Suc (length (filter is_term e))"
      using bt(2,3) by simp
    have 3: "is_term (last ?e)" using bt(3) e(3) by simp
    have 4: "length (filter is_term ?e) < Suc n \<longrightarrow> \<not> has_term (after_sentences (Suc n) s)"
      using 2 e(4) True by simp
    from 1 2 3 4 e(2) show ?thesis
      by (intro exI [of _ ?e]) simp
  qed
qed

lemma occurs_at_split:
  "occurs_at kw s \<Longrightarrow> s = take (length kw) s @ drop (length kw) s \<and>
     length (take (length kw) s) = length kw \<and> list_all2 ci_eq kw (take (length kw) s)"
  by (simp add: occurs_at_def)

text \<open>
  A window is an occurrence \<open>k\<close> of the keyword, the rest \<open>b\<close> of its sentence with the
  boundary \<open>t\<close>, and a text \<open>e\<close> of at most three closed sentences; when \<open>e\<close> has fewer than
  three, no boundary is left behind the window.
\<close>

lemma window_rest_shape:
  assumes "window_rest kw s = Some rest"
  shows "\<exists>k b t e. s = k @ b @ t # e @ rest \<and> list_all2 ci_eq kw k
           \<and> filter is_term b = [] \<and> is_term t
           \<and> length (filter is_term e) \<le> 3
           \<and> (e \<noteq> [] \<longrightarrow> is_term (last e))
           \<and> (length (filter is_term e) < 3 \<longrightarrow> \<not> has_term rest)"
proof -
  let ?d = "drop (length kw) s"
  from assms have o: "occurs_at kw s" and h: "has_term ?d"
    and r: "rest = after_sentences 3 (after_sentence ?d)"
    by (auto simp: window_rest_def split: if_splits)
  from h obtain b t where
    bt: "?d = b @ t # after_sentence ?d" "filter is_term b = []" "is_term t"
    using after_sentence_split by blast
  from after_sentences_split [of "after_sentence ?d" 3] r obtain e where
    e: "after_sentence ?d = e @ rest" "length (filter is_term e) \<le> 3"
       "e \<noteq> [] \<longrightarrow> is_term (last e)" "length (filter is_term e) < 3 \<longrightarrow> \<not> has_term rest"
    by blast
  have "s = take (length kw) s @ ?d" by simp
  with bt(1) e(1) have "s = take (length kw) s @ b @ t # e @ rest" by metis
  moreover have "list_all2 ci_eq kw (take (length kw) s)"
    using o by (simp add: occurs_at_def)
  ultimately show ?thesis using bt(2,3) e(2,3,4) by blast
qed

subsection \<open>The section loop\<close>

text \<open>
  Claim C2 as it is stated fails: in \<^verbatim>\<open>Check security first. Then security again.\<close> the
  keyword occurs twice. The source returns one excerpt, which starts at the first occurrence
  and not at the start of its sentence; the extractor of the claim returns an excerpt for
  each occurrence, each starting with the whole sentence.
\<close>

theorem section_counterexample:
  "section_loop security_keywords (str ''Check security first. Then security again.'') []
     = str ''security first. Then security again.'' \<and>
   claimed_section security_keywords (str ''Check security first. Then security again.'') []
     = str ''Check security first. Then security again.  Then security again.''"
  by code_simp

text \<open>
  Claim C2, amended. The section extractor goes through the keywords of the category in
  order and stops at the first keyword that opens at least one window in the text; its
  result is then the windows of that keyword, from left to right and without overlap, joined
  by single spaces, and later keywords are not tried. A window starts at an occurrence of
  the keyword (in any case) that has a sentence boundary behind it, runs to the end of that
  sentence and on over up to three following closed sentences. When no keyword opens a
  window the field keeps its value.
\<close>

theorem section_loop_windows:
  "section_loop kws s cur =
     (case find (\<lambda>k. window_scan k 0 s \<noteq> []) kws of
        None \<Rightarrow> cur
      | Some k \<Rightarrow> join_space (window_scan k 0 s))"
  by (induction kws) (simp_all add: findall_section_pattern Let_def)

end
